theory Spec2Isabelle
  imports Complex_Main "HOL-Library.Sublist" "HOL-Library.Char_ord" "HOL-Library.List_Lexorder"
begin

section \<open>The churn notebook: data model\<close>

text \<open>
  The repository is one notebook, \<^verbatim>\<open>MLOps/DEPI_MLOps .ipynb\<close>. Its cells are
  straight-line Python over pandas and scikit-learn. The statements of the notebook are
  embedded one by one; each library call is embedded by what the library does for the
  arguments the notebook passes (\<^verbatim>\<open>drop_first=True\<close>, \<^verbatim>\<open>test_size=0.3\<close>, the
  column lists, \<^verbatim>\<open>random_state=42\<close>, \<^verbatim>\<open>max_iter=1000\<close>), with the part that the
  notebook cannot influence (the SQL server's answer, the random generator, the
  classifier and its solver) taken as a parameter.

  A cell of a dataframe is a missing value, a text or an integer. Floating-point cells
  are not represented: no statement of the notebook reads the numeric value of a cell.
\<close>

datatype cell = NA | Txt string | Num int

datatype error = ConnectError | QueryError | KeyError | ValueError

text \<open>
  What the SQL cursor hands to \<^verbatim>\<open>pd.read_sql\<close>: the column names of the result set
  and one record per table row, read by column name.
\<close>

record table =
  t_names :: "string list"
  t_rows :: "(string \<Rightarrow> cell) list"

text \<open>
  A dataframe is stored by column, as pandas does: the row labels (the index) and the
  named columns in order. A series is one column with the same row labels.
\<close>

record frame =
  index :: "nat list"
  columns :: "(string \<times> cell list) list"

record series =
  s_index :: "nat list"
  s_cells :: "cell list"

definition nrows :: "frame \<Rightarrow> nat" where
  "nrows df = length (index df)"

definition names :: "frame \<Rightarrow> string list" where
  "names df = map fst (columns df)"

text \<open>\<^verbatim>\<open>pd.read_sql\<close> builds the frame with a fresh \<^verbatim>\<open>RangeIndex\<close>: row \<open>i\<close> is labelled \<open>i\<close>.\<close>

definition DataFrame :: "table \<Rightarrow> frame" where
  "DataFrame t =
     \<lparr>index = [0..<length (t_rows t)],
      columns = map (\<lambda>nm. (nm, map (\<lambda>r. r nm) (t_rows t))) (t_names t)\<rparr>"

text \<open>Positional row selection (\<^verbatim>\<open>df.iloc[ps]\<close>): labels travel with their rows.\<close>

definition iloc :: "frame \<Rightarrow> nat list \<Rightarrow> frame" where
  "iloc df ps =
     \<lparr>index = map (\<lambda>p. index df ! p) ps,
      columns = map (\<lambda>(nm, vs). (nm, map (\<lambda>p. vs ! p) ps)) (columns df)\<rparr>"

definition iloc_series :: "series \<Rightarrow> nat list \<Rightarrow> series" where
  "iloc_series s ps =
     \<lparr>s_index = map (\<lambda>p. s_index s ! p) ps, s_cells = map (\<lambda>p. s_cells s ! p) ps\<rparr>"

subsection \<open>Data loader\<close>

text \<open>
  The first statements of the second code cell:
  \<^verbatim>\<open>
  conn = pyodbc.connect('DRIVER=...;SERVER=...')
  query = "SELECT * FROM [dbo].[telecom_customer_churn];"
  df = pd.read_sql(query, conn)
  conn.close()
  \<close>
  The database server is the environment: it accepts the connection or not, and it
  answers the query with a result set or with an error. The world records every
  connection the process has opened and whether it is still open.
\<close>

datatype conn_state = Open | Closed

record server =
  accepts :: bool
  answer :: "error + table"

record world =
  connections :: "conn_state list"

definition connect :: "server \<Rightarrow> world \<Rightarrow> (error + nat) \<times> world" where
  "connect srv w =
     (if accepts srv
      then (Inr (length (connections w)), w\<lparr>connections := connections w @ [Open]\<rparr>)
      else (Inl ConnectError, w))"

definition read_sql :: "server \<Rightarrow> nat \<Rightarrow> world \<Rightarrow> (error + frame) \<times> world" where
  "read_sql srv conn w =
     (case answer srv of Inl e \<Rightarrow> (Inl e, w) | Inr t \<Rightarrow> (Inr (DataFrame t), w))"

definition close :: "nat \<Rightarrow> world \<Rightarrow> world" where
  "close conn w = w\<lparr>connections := (connections w)[conn := Closed]\<rparr>"

text \<open>
  The statements run in sequence with no \<^verbatim>\<open>try\<close>/\<^verbatim>\<open>finally\<close> and no \<^verbatim>\<open>with\<close> block:
  an exception raised by a statement ends the cell there, with the world as that
  statement left it.
\<close>

definition load_data :: "server \<Rightarrow> world \<Rightarrow> (error + frame) \<times> world" where
  "load_data srv w0 =
     (case connect srv w0 of
        (Inl e, w1) \<Rightarrow> (Inl e, w1)
      | (Inr conn, w1) \<Rightarrow>
          (case read_sql srv conn w1 of
             (Inl e, w2) \<Rightarrow> (Inl e, w2)
           | (Inr df, w2) \<Rightarrow> (Inr df, close conn w2)))"

subsection \<open>Preprocessing cell\<close>

text \<open>\<^verbatim>\<open>df.dropna()\<close>: keep the rows that have no missing value in any column.\<close>

definition complete_row :: "frame \<Rightarrow> nat \<Rightarrow> bool" where
  "complete_row df p = list_all (\<lambda>(nm, vs). vs ! p \<noteq> NA) (columns df)"

definition dropna :: "frame \<Rightarrow> frame" where
  "dropna df = iloc df (filter (complete_row df) [0..<nrows df])"

text \<open>\<^verbatim>\<open>df[nm]\<close> raises \<^verbatim>\<open>KeyError\<close> for an unknown column.\<close>

definition getitem :: "frame \<Rightarrow> string \<Rightarrow> error + cell list" where
  "getitem df nm = (case map_of (columns df) nm of None \<Rightarrow> Inl KeyError | Some vs \<Rightarrow> Inr vs)"

text \<open>\<^verbatim>\<open>df[nm] = vs\<close> overwrites the column in place, or appends it as the last column.\<close>

definition setitem :: "frame \<Rightarrow> string \<Rightarrow> cell list \<Rightarrow> frame" where
  "setitem df nm vs =
     (if nm \<in> set (names df)
      then df\<lparr>columns := map (\<lambda>(k, old). if k = nm then (k, vs) else (k, old)) (columns df)\<rparr>
      else df\<lparr>columns := columns df @ [(nm, vs)]\<rparr>)"

text \<open>The notebook's \<^verbatim>\<open>lambda x: 1 if x == 'Churned' else 0\<close>.\<close>

definition churn_label :: "cell \<Rightarrow> cell" where
  "churn_label x = (if x = Txt ''Churned'' then Num 1 else Num 0)"

definition categorical_columns :: "string list" where
  "categorical_columns =
     [''Gender'', ''City'', ''Offer'', ''Phone_Service'', ''Multiple_Lines'',
      ''Internet_Service'', ''Internet_Type'', ''Online_Security'', ''Online_Backup'',
      ''Device_Protection_Plan'', ''Premium_Tech_Support'', ''Streaming_TV'',
      ''Streaming_Movies'', ''Streaming_Music'', ''Unlimited_Data'', ''Contract'',
      ''Paperless_Billing'', ''Payment_Method'', ''Churn_Category'', ''Churn_Reason'']"

definition dropped_columns :: "string list" where
  "dropped_columns = [''Customer_ID'', ''Customer_Status'']"

text \<open>
  The categories of a column as \<^verbatim>\<open>pd.get_dummies\<close> orders them: the distinct
  non-missing values, sorted, integers before texts.
\<close>

fun num_of :: "cell \<Rightarrow> int option" where
  "num_of (Num n) = Some n"
| "num_of _ = None"

fun txt_of :: "cell \<Rightarrow> string option" where
  "txt_of (Txt s) = Some s"
| "txt_of _ = None"

definition levels :: "cell list \<Rightarrow> cell list" where
  "levels vs =
     map Num (sort (remdups (List.map_filter num_of vs)))
     @ map Txt (sort (remdups (List.map_filter txt_of vs)))"

text \<open>
  Python's \<^verbatim>\<open>str\<close> of a category, used in the indicator's column name. An integer
  is rendered without a decimal point. pandas holds an integer column that has a NULL
  as doubles and renders its category 2 as \<^verbatim>\<open>2.0\<close>; cells hold no doubles, so the
  statements that name an indicator are made for columns of text, or speak of names
  that are absent.
\<close>

definition digit :: "nat \<Rightarrow> char" where
  "digit d = char_of (48 + d)"

fun digits10 :: "nat \<Rightarrow> string" where
  "digits10 n = (if n < 10 then [digit n] else digits10 (n div 10) @ [digit (n mod 10)])"

declare digits10.simps [simp del]

definition str :: "cell \<Rightarrow> string" where
  "str v = (case v of
      NA \<Rightarrow> ''nan''
    | Txt s \<Rightarrow> s
    | Num n \<Rightarrow> (if n < 0 then CHR ''-'' # digits10 (nat (- n)) else digits10 (nat n)))"

definition dummy_name :: "string \<Rightarrow> cell \<Rightarrow> string" where
  "dummy_name c l = c @ ''_'' @ str l"

definition indicator :: "cell \<Rightarrow> cell list \<Rightarrow> cell list" where
  "indicator l vs = map (\<lambda>v. if v = l then Num 1 else Num 0) vs"

text \<open>
  The indicator columns of one encoded column (\<^verbatim>\<open>_get_dummies_1d\<close>): one per category,
  without the first one when \<^verbatim>\<open>drop_first\<close> is set.
\<close>

definition get_dummies_1d :: "string \<Rightarrow> cell list \<Rightarrow> bool \<Rightarrow> (string \<times> cell list) list" where
  "get_dummies_1d c vs drop_first =
     map (\<lambda>l. (dummy_name c l, indicator l vs))
       (if drop_first then tl (levels vs) else levels vs)"

fun encode_all :: "frame \<Rightarrow> string list \<Rightarrow> bool \<Rightarrow> error + (string \<times> cell list) list" where
  "encode_all df [] drop_first = Inr []"
| "encode_all df (c # cs) drop_first =
     (case getitem df c of
        Inl e \<Rightarrow> Inl e
      | Inr vs \<Rightarrow>
          (case encode_all df cs drop_first of
             Inl e \<Rightarrow> Inl e
           | Inr rest \<Rightarrow> Inr (get_dummies_1d c vs drop_first @ rest)))"

text \<open>
  \<^verbatim>\<open>pd.get_dummies(df, columns=cs, drop_first=d)\<close>: the columns that are not encoded
  stay first, in their order; the indicator blocks follow in the order of \<open>cs\<close>.
\<close>

definition get_dummies :: "frame \<Rightarrow> string list \<Rightarrow> bool \<Rightarrow> error + frame" where
  "get_dummies df cs drop_first =
     (case encode_all df cs drop_first of
        Inl e \<Rightarrow> Inl e
      | Inr blocks \<Rightarrow>
          Inr (df\<lparr>columns := filter (\<lambda>(k, vs). k \<notin> set cs) (columns df) @ blocks\<rparr>))"

text \<open>\<^verbatim>\<open>df.drop(columns=cs)\<close> raises \<^verbatim>\<open>KeyError\<close> when a label is not a column.\<close>

definition drop_columns :: "frame \<Rightarrow> string list \<Rightarrow> error + frame" where
  "drop_columns df cs =
     (if list_all (\<lambda>c. c \<in> set (names df)) cs
      then Inr (df\<lparr>columns := filter (\<lambda>(k, vs). k \<notin> set cs) (columns df)\<rparr>)
      else Inl KeyError)"

text \<open>
  The preprocessing statements of the second code cell, in order:
  \<^verbatim>\<open>
  df = df.dropna()
  df['Churn'] = df['Customer_Status'].apply(lambda x: 1 if x == 'Churned' else 0)
  df = pd.get_dummies(df, columns=categorical_columns, drop_first=True)
  df = df.drop(columns=['Customer_ID', 'Customer_Status'])
  \<close>
\<close>

definition derive_label :: "frame \<Rightarrow> error + frame" where
  "derive_label df =
     (case getitem df ''Customer_Status'' of
        Inl e \<Rightarrow> Inl e
      | Inr status \<Rightarrow> Inr (setitem df ''Churn'' (map churn_label status)))"

definition preprocess :: "frame \<Rightarrow> error + frame" where
  "preprocess df0 =
     (case derive_label (dropna df0) of
        Inl e \<Rightarrow> Inl e
      | Inr df1 \<Rightarrow>
          (case get_dummies df1 categorical_columns True of
             Inl e \<Rightarrow> Inl e
           | Inr df2 \<Rightarrow> drop_columns df2 dropped_columns))"

subsection \<open>Training cell\<close>

text \<open>
  \<^verbatim>\<open>
  X = df.drop(columns=['Churn'])
  y = df['Churn']
  X_train, X_test, y_train, y_test = train_test_split(X, y, test_size=0.3, random_state=42)
  model = LogisticRegression(max_iter=1000)
  model.fit(X_train, y_train)
  y_pred = model.predict(X_test)
  accuracy = accuracy_score(y_test, y_pred)
  \<close>
\<close>

definition separate :: "frame \<Rightarrow> error + (frame \<times> series)" where
  "separate df =
     (case drop_columns df [''Churn''] of
        Inl e \<Rightarrow> Inl e
      | Inr X \<Rightarrow>
          (case getitem df ''Churn'' of
             Inl e \<Rightarrow> Inl e
           | Inr vs \<Rightarrow> Inr (X, \<lparr>s_index = index df, s_cells = vs\<rparr>)))"

text \<open>
  scikit-learn's \<^verbatim>\<open>_validate_shuffle_split\<close> for \<^verbatim>\<open>test_size=0.3\<close> and no
  \<^verbatim>\<open>train_size\<close>: \<^verbatim>\<open>n_test = ceil(0.3 * n_samples)\<close>, \<^verbatim>\<open>n_train = n_samples - n_test\<close>,
  and a \<^verbatim>\<open>ValueError\<close> when the training set would be empty. The ceiling is taken
  over the exact product \<open>3 n / 10\<close>; the double-precision product has the same
  ceiling for every row count a dataframe can have.
\<close>

definition validate_shuffle_split :: "nat \<Rightarrow> error + (nat \<times> nat)" where
  "validate_shuffle_split n_samples =
     (let n_test = (3 * n_samples + 9) div 10;
          n_train = n_samples - n_test
      in if n_train = 0 then Inl ValueError else Inr (n_train, n_test))"

text \<open>
  \<^verbatim>\<open>train_test_split\<close> shuffles once (\<^verbatim>\<open>ShuffleSplit\<close>): it draws a permutation of the
  row positions from the generator seeded with \<^verbatim>\<open>random_state=42\<close>, takes the first
  \<open>n_test\<close> positions for the test partition and the next \<open>n_train\<close> for the training
  partition, and selects these rows from every array. The generator is the parameter
  \<open>rng\<close>: \<open>rng seed n\<close> is what \<^verbatim>\<open>RandomState(seed).permutation(n)\<close> returns.
\<close>

definition is_permutation :: "nat list \<Rightarrow> nat \<Rightarrow> bool" where
  "is_permutation p n \<longleftrightarrow> distinct p \<and> set p = set [0..<n]"

definition train_test_split ::
  "(nat \<Rightarrow> nat \<Rightarrow> nat list) \<Rightarrow> frame \<Rightarrow> series \<Rightarrow> nat
     \<Rightarrow> error + (frame \<times> frame \<times> series \<times> series)" where
  "train_test_split rng X y random_state =
     (if length (s_cells y) \<noteq> nrows X then Inl ValueError
      else
        (case validate_shuffle_split (nrows X) of
           Inl e \<Rightarrow> Inl e
         | Inr (n_train, n_test) \<Rightarrow>
             (let p = rng random_state (nrows X);
                  ind_test = take n_test p;
                  ind_train = take n_train (drop n_test p)
              in Inr (iloc X ind_train, iloc X ind_test,
                      iloc_series y ind_train, iloc_series y ind_test))))"

text \<open>
  The classifier is a parameter: \<open>fit clf max_iter X y\<close> is what
  \<^verbatim>\<open>LogisticRegression(max_iter=max_iter).fit(X, y)\<close> does, the fitted model or an
  error; \<^verbatim>\<open>predict\<close> returns the labels the model predicts for the rows it is given.
\<close>

record 'm classifier =
  fit :: "nat \<Rightarrow> frame \<Rightarrow> series \<Rightarrow> error + 'm"
  predict :: "'m \<Rightarrow> frame \<Rightarrow> cell list"

text \<open>
  \<^verbatim>\<open>accuracy_score(y_true, y_pred)\<close>: a \<^verbatim>\<open>ValueError\<close> for arrays of different
  lengths, otherwise the mean of the elementwise comparison, which is not a number for
  empty arrays. The mean is the exact quotient; the rounding of the double-precision
  division is not represented.
\<close>

datatype score = Nan | Score rat

definition accuracy_score :: "cell list \<Rightarrow> cell list \<Rightarrow> error + score" where
  "accuracy_score y_true y_pred =
     (if length y_true \<noteq> length y_pred then Inl ValueError
      else if y_true = [] then Inr Nan
      else Inr (Score (of_nat (length (filter (\<lambda>(a, b). a = b) (zip y_true y_pred)))
                        / of_nat (length y_true))))"

text \<open>The training cell leaves the fitted model and the accuracy to the cells after it.\<close>

definition train_and_score ::
  "(nat \<Rightarrow> nat \<Rightarrow> nat list) \<Rightarrow> 'm classifier \<Rightarrow> frame \<Rightarrow> error + ('m \<times> score)" where
  "train_and_score rng clf df =
     (case separate df of
        Inl e \<Rightarrow> Inl e
      | Inr (X, y) \<Rightarrow>
          (case train_test_split rng X y 42 of
             Inl e \<Rightarrow> Inl e
           | Inr (X_train, X_test, y_train, y_test) \<Rightarrow>
               (case fit clf 1000 X_train y_train of
                  Inl e \<Rightarrow> Inl e
                | Inr model \<Rightarrow>
                    (case accuracy_score (s_cells y_test) (predict clf model X_test) of
                       Inl e \<Rightarrow> Inl e
                     | Inr accuracy \<Rightarrow> Inr (model, accuracy)))))"

subsection \<open>Notions used in the statements, and a small customer table\<close>

text \<open>The non-missing cells of a column are all texts or all integers, as the cells of a typed SQL column are.\<close>

definition one_kind :: "cell list \<Rightarrow> bool" where
  "one_kind vs \<longleftrightarrow> list_all (\<lambda>v. num_of v = None) vs \<or> list_all (\<lambda>v. txt_of v = None) vs"

text \<open>Row \<open>i\<close> of the loaded table has a value in every column.\<close>

definition complete_record :: "table \<Rightarrow> nat \<Rightarrow> bool" where
  "complete_record t i = list_all (\<lambda>c. (t_rows t ! i) c \<noteq> NA) (t_names t)"

definition ex_record ::
  "string \<Rightarrow> int \<Rightarrow> string \<Rightarrow> string \<Rightarrow> cell \<Rightarrow> cell \<Rightarrow> string \<Rightarrow> cell" where
  "ex_record cid age gender status category reason =
     (\<lambda>c. Txt ''No'')
       (''Customer_ID'' := Txt cid, ''Age'' := Num age, ''Gender'' := Txt gender,
        ''Customer_Status'' := Txt status, ''Churn_Category'' := category,
        ''Churn_Reason'' := reason)"

definition ex_names :: "string list" where
  "ex_names = ''Customer_ID'' # ''Age'' # ''Customer_Status'' # categorical_columns"

definition ex_table :: table where
  "ex_table =
     \<lparr>t_names = ex_names,
      t_rows =
        [ex_record ''0002'' 37 ''Female'' ''Stayed'' (Txt ''Other'') (Txt ''Unknown''),
         ex_record ''0003'' 46 ''Male'' ''Churned'' (Txt ''Competitor'') (Txt ''Better offer''),
         ex_record ''0004'' 50 ''Male'' ''Stayed'' NA NA,
         ex_record ''0011'' 78 ''Female'' ''Churned'' (Txt ''Price'') (Txt ''Price too high''),
         ex_record ''0013'' 23 ''Male'' ''Joined'' (Txt ''Other'') (Txt ''Unknown'')]\<rparr>"

definition ex_out :: frame where
  "ex_out =
     \<lparr>index = [0, 1, 3, 4],
      columns =
        [(''Age'', [Num 37, Num 46, Num 78, Num 23]),
         (''Churn'', [Num 0, Num 1, Num 1, Num 0]),
         (''Gender_Male'', [Num 0, Num 1, Num 0, Num 1]),
         (''Churn_Category_Other'', [Num 1, Num 0, Num 0, Num 1]),
         (''Churn_Category_Price'', [Num 0, Num 0, Num 1, Num 0]),
         (''Churn_Reason_Price too high'', [Num 0, Num 0, Num 1, Num 0]),
         (''Churn_Reason_Unknown'', [Num 1, Num 0, Num 0, Num 1])]\<rparr>"

text \<open>The filtered rows of \<open>ex_table\<close> after one-hot encoding, before the identifier columns are dropped.\<close>

definition ex_encoded :: frame where
  "ex_encoded =
     \<lparr>index = [0, 1, 3, 4],
      columns =
        [(''Customer_ID'', [Txt ''0002'', Txt ''0003'', Txt ''0011'', Txt ''0013'']),
         (''Age'', [Num 37, Num 46, Num 78, Num 23]),
         (''Customer_Status'', [Txt ''Stayed'', Txt ''Churned'', Txt ''Churned'', Txt ''Joined'']),
         (''Gender_Male'', [Num 0, Num 1, Num 0, Num 1]),
         (''Churn_Category_Other'', [Num 1, Num 0, Num 0, Num 1]),
         (''Churn_Category_Price'', [Num 0, Num 0, Num 1, Num 0]),
         (''Churn_Reason_Price too high'', [Num 0, Num 0, Num 1, Num 0]),
         (''Churn_Reason_Unknown'', [Num 1, Num 0, Num 0, Num 1])]\<rparr>"



text \<open>
  A generator that rotates the positions by its seed, and a classifier whose solver
  stops after seven iterations or at its bound, and that predicts churn for every row;
  its model is the number of iterations it ran.
\<close>

definition ex_rng :: "nat \<Rightarrow> nat \<Rightarrow> nat list" where
  "ex_rng seed n = rotate seed [0..<n]"

definition ex_clf :: "nat classifier" where
  "ex_clf =
     \<lparr>fit = (\<lambda>max_iter X y. Inr (min max_iter 7)),
      predict = (\<lambda>m X. replicate (nrows X) (Num 1))\<rparr>"

text \<open>What the training cell computes from \<open>ex_out\<close> with this generator.\<close>

definition ex_X :: frame where
  "ex_X =
     \<lparr>index = [0, 1, 3, 4],
      columns =
        [(''Age'', [Num 37, Num 46, Num 78, Num 23]),
         (''Gender_Male'', [Num 0, Num 1, Num 0, Num 1]),
         (''Churn_Category_Other'', [Num 1, Num 0, Num 0, Num 1]),
         (''Churn_Category_Price'', [Num 0, Num 0, Num 1, Num 0]),
         (''Churn_Reason_Price too high'', [Num 0, Num 0, Num 1, Num 0]),
         (''Churn_Reason_Unknown'', [Num 1, Num 0, Num 0, Num 1])]\<rparr>"

definition ex_y :: series where
  "ex_y = \<lparr>s_index = [0, 1, 3, 4], s_cells = [Num 0, Num 1, Num 1, Num 0]\<rparr>"

definition ex_X_train :: frame where
  "ex_X_train =
     \<lparr>index = [0, 1],
      columns =
        [(''Age'', [Num 37, Num 46]),
         (''Gender_Male'', [Num 0, Num 1]),
         (''Churn_Category_Other'', [Num 1, Num 0]),
         (''Churn_Category_Price'', [Num 0, Num 0]),
         (''Churn_Reason_Price too high'', [Num 0, Num 0]),
         (''Churn_Reason_Unknown'', [Num 1, Num 0])]\<rparr>"

definition ex_X_test :: frame where
  "ex_X_test =
     \<lparr>index = [3, 4],
      columns =
        [(''Age'', [Num 78, Num 23]),
         (''Gender_Male'', [Num 0, Num 1]),
         (''Churn_Category_Other'', [Num 0, Num 1]),
         (''Churn_Category_Price'', [Num 1, Num 0]),
         (''Churn_Reason_Price too high'', [Num 1, Num 0]),
         (''Churn_Reason_Unknown'', [Num 0, Num 1])]\<rparr>"

definition ex_y_train :: series where
  "ex_y_train = \<lparr>s_index = [0, 1], s_cells = [Num 0, Num 1]\<rparr>"

definition ex_y_test :: series where
  "ex_y_test = \<lparr>s_index = [3, 4], s_cells = [Num 1, Num 0]\<rparr>"

section \<open>Properties\<close>

subsection \<open>Loading and filtering\<close>

lemma index_DataFrame: "index (DataFrame t) = [0..<length (t_rows t)]"
  by (simp add: DataFrame_def)

lemma nrows_DataFrame: "nrows (DataFrame t) = length (t_rows t)"
  by (simp add: nrows_def DataFrame_def)

lemma complete_row_DataFrame:
  "p < length (t_rows t) \<Longrightarrow> complete_row (DataFrame t) p \<longleftrightarrow> (\<forall>c\<in>set (t_names t). (t_rows t ! p) c \<noteq> NA)"
  by (auto simp: complete_row_def DataFrame_def list_all_iff)

lemma keep_DataFrame:
  "filter (complete_row (DataFrame t)) [0..<nrows (DataFrame t)] = filter (complete_record t) [0..<length (t_rows t)]"
  by (rule filter_cong) (auto simp: nrows_DataFrame complete_row_DataFrame complete_record_def list_all_iff)

lemma map_nth_upt_sub: "set ps \<subseteq> {0..<n} \<Longrightarrow> map (\<lambda>p. [0..<n] ! p) ps = ps"
  by (induction ps) auto

lemma index_dropna_DataFrame:
  "index (dropna (DataFrame t)) = filter (complete_record t) [0..<length (t_rows t)]"
proof -
  have "set (filter (complete_record t) [0..<length (t_rows t)]) \<subseteq> {0..<length (t_rows t)}" by auto
  then show ?thesis
    unfolding dropna_def keep_DataFrame
    by (simp add: iloc_def index_DataFrame map_nth_upt_sub)
qed

lemma columns_dropna_DataFrame:
  "columns (dropna (DataFrame t)) =
     map (\<lambda>nm. (nm, map (\<lambda>p. (t_rows t ! p) nm) (filter (complete_record t) [0..<length (t_rows t)]))) (t_names t)"
  unfolding dropna_def keep_DataFrame
  by (simp add: iloc_def DataFrame_def comp_def)

lemma getitem_setitem: "getitem (setitem df nm vs) nm = Inr vs"
proof -
  have a: "map_of (xs @ [(nm, vs)]) nm = Some vs" if "nm \<notin> fst ` set xs" for xs :: "(string \<times> cell list) list"
    using that by (induction xs) auto
  have b: "map_of (map (\<lambda>(k, old). if k = nm then (k, vs) else (k, old)) xs) nm = Some vs" if "nm \<in> fst ` set xs" for xs :: "(string \<times> cell list) list"
    using that by (induction xs) auto
  show ?thesis using a b by (auto simp: getitem_def setitem_def names_def)
qed

lemma index_setitem: "index (setitem df nm vs) = index df"
  by (simp add: setitem_def)

lemma derive_label_index: "derive_label df = Inr df1 \<Longrightarrow> index df1 = index df"
  by (auto simp: derive_label_def index_setitem split: sum.splits)

lemma get_dummies_index: "get_dummies df cs d = Inr df2 \<Longrightarrow> index df2 = index df"
  by (auto simp: get_dummies_def split: sum.splits)

lemma drop_columns_index: "drop_columns df cs = Inr df3 \<Longrightarrow> index df3 = index df"
  by (auto simp: drop_columns_def split: if_splits)

lemma preprocess_index: "preprocess df = Inr out \<Longrightarrow> index out = index (dropna df)"
  by (auto simp: preprocess_def split: sum.splits dest!: derive_label_index get_dummies_index drop_columns_index)

lemma map_of_kept:
  "k \<notin> S \<Longrightarrow> map_of xs k = Some v \<Longrightarrow> map_of (filter (\<lambda>(k, vs). k \<notin> S) xs @ ys) k = Some v"
  by (induction xs) (auto)

lemma getitem_get_dummies:
  assumes "get_dummies df cs d = Inr df2" "k \<notin> set cs" "getitem df k = Inr vs"
  shows "getitem df2 k = Inr vs"
proof -
  from assms(1) obtain blocks where
    df2: "columns df2 = filter (\<lambda>(k, vs). k \<notin> set cs) (columns df) @ blocks"
    by (auto simp: get_dummies_def split: sum.splits)
  from assms(3) have "map_of (columns df) k = Some vs"
    by (auto simp: getitem_def split: option.splits)
  from map_of_kept[OF assms(2) this] show ?thesis
    unfolding getitem_def df2 by simp
qed

lemma getitem_drop_columns:
  assumes "drop_columns df cs = Inr df3" "k \<notin> set cs" "getitem df k = Inr vs"
  shows "getitem df3 k = Inr vs"
proof -
  from assms(1) have df3: "columns df3 = filter (\<lambda>(k, vs). k \<notin> set cs) (columns df) @ []"
    by (auto simp: drop_columns_def split: if_splits)
  from assms(3) have "map_of (columns df) k = Some vs"
    by (auto simp: getitem_def split: option.splits)
  from map_of_kept[OF assms(2) this, of "[]"] show ?thesis
    unfolding getitem_def df3 by simp
qed

lemma Churn_not_categorical: "''Churn'' \<notin> set categorical_columns"
  by (simp add: categorical_columns_def)

lemma Churn_not_dropped: "''Churn'' \<notin> set dropped_columns"
  by (simp add: dropped_columns_def)

lemma preprocess_Churn:
  assumes "preprocess df = Inr out"
  shows "\<exists>status. getitem (dropna df) ''Customer_Status'' = Inr status \<and> getitem out ''Churn'' = Inr (map churn_label status)"
proof -
  from assms obtain df1 df2 where 1: "derive_label (dropna df) = Inr df1"
    and 2: "get_dummies df1 categorical_columns True = Inr df2"
    and 3: "drop_columns df2 dropped_columns = Inr out"
    by (auto simp: preprocess_def split: sum.splits)
  from 1 obtain status where s: "getitem (dropna df) ''Customer_Status'' = Inr status"
    and df1: "df1 = setitem (dropna df) ''Churn'' (map churn_label status)"
    by (auto simp: derive_label_def split: sum.splits)
  have "getitem df1 ''Churn'' = Inr (map churn_label status)" by (simp add: df1 getitem_setitem)
  then have "getitem df2 ''Churn'' = Inr (map churn_label status)"
    using getitem_get_dummies[OF 2 Churn_not_categorical] by simp
  then have "getitem out ''Churn'' = Inr (map churn_label status)"
    using getitem_drop_columns[OF 3 Churn_not_dropped] by simp
  with s show ?thesis by blast
qed

lemma getitem_dropna_DataFrame:
  "getitem (dropna (DataFrame t)) c = Inr vs \<Longrightarrow>
     vs = map (\<lambda>p. (t_rows t ! p) c) (filter (complete_record t) [0..<length (t_rows t)])"
proof -
  have "map_of (map (\<lambda>nm. (nm, f nm)) ns) c = Some vs \<Longrightarrow> vs = f c" for f :: "string \<Rightarrow> cell list" and ns
    by (induction ns) (auto split: if_splits)
  then show "getitem (dropna (DataFrame t)) c = Inr vs \<Longrightarrow> ?thesis"
    by (auto simp: getitem_def columns_dropna_DataFrame split: option.splits)
qed

lemma ex_preprocess: "preprocess (DataFrame ex_table) = Inr ex_out"
  by code_simp

text \<open>
  C10. The missing-value filter runs first and looks at every column of the loaded
  table: the rows of the preprocessed frame are exactly the table rows that have a
  value in every column, so a row with a missing value in any column (an identifier,
  a column that is encoded later, a column that is dropped later) is not in the output.
\<close>

theorem dropna_over_all_columns:
  assumes "preprocess (DataFrame t) = Inr out"
  shows "index out = filter (\<lambda>i. \<forall>c\<in>set (t_names t). (t_rows t ! i) c \<noteq> NA) [0..<length (t_rows t)]
       \<and> (\<forall>i c. c \<in> set (t_names t) \<and> (t_rows t ! i) c = NA \<longrightarrow> i \<notin> set (index out))"
proof -
  have "index out = filter (complete_record t) [0..<length (t_rows t)]"
    using preprocess_index[OF assms] by (simp add: index_dropna_DataFrame)
  then have eq: "index out = filter (\<lambda>i. \<forall>c\<in>set (t_names t). (t_rows t ! i) c \<noteq> NA) [0..<length (t_rows t)]"
    by (simp add: complete_record_def[abs_def] list_all_iff)
  then show ?thesis by auto
qed

theorem dropna_over_all_columns_witness:
  "preprocess (DataFrame ex_table) = Inr ex_out
   \<and> index ex_out = filter (\<lambda>i. \<forall>c\<in>set (t_names ex_table). (t_rows ex_table ! i) c \<noteq> NA) [0..<length (t_rows ex_table)]
   \<and> (t_rows ex_table ! 2) ''Churn_Reason'' = NA
   \<and> 2 \<notin> set (index ex_out)"
proof -
  have na: "(t_rows ex_table ! 2) ''Churn_Reason'' = NA"
    by (simp add: ex_table_def ex_record_def)
  have nm: "''Churn_Reason'' \<in> set (t_names ex_table)"
    by (simp add: ex_table_def ex_names_def categorical_columns_def)
  from dropna_over_all_columns[OF ex_preprocess] na nm show ?thesis
    using ex_preprocess by blast
qed

text \<open>
  C1. For every row that survives the missing-value filter, the derived column
  \<^verbatim>\<open>Churn\<close> of the preprocessed frame holds 1 exactly when the row's
  \<^verbatim>\<open>Customer_Status\<close> in the loaded table is the text \<^verbatim>\<open>Churned\<close>, and 0 otherwise.
\<close>

theorem churn_is_one_iff_churned:
  assumes "preprocess (DataFrame t) = Inr out"
  shows "\<exists>ys. getitem out ''Churn'' = Inr ys \<and> length ys = length (index out)
           \<and> (\<forall>j<length (index out).
                 index out ! j < length (t_rows t)
               \<and> (ys ! j = Num 1 \<longleftrightarrow> (t_rows t ! (index out ! j)) ''Customer_Status'' = Txt ''Churned'')
               \<and> (ys ! j = Num 0 \<longleftrightarrow> (t_rows t ! (index out ! j)) ''Customer_Status'' \<noteq> Txt ''Churned''))"
proof -
  let ?keep = "filter (complete_record t) [0..<length (t_rows t)]"
  have ix: "index out = ?keep"
    using preprocess_index[OF assms] by (simp add: index_dropna_DataFrame)
  from preprocess_Churn[OF assms] obtain status where
    st: "getitem (dropna (DataFrame t)) ''Customer_Status'' = Inr status"
    and ch: "getitem out ''Churn'' = Inr (map churn_label status)"
    by blast
  have status: "status = map (\<lambda>p. (t_rows t ! p) ''Customer_Status'') ?keep"
    using getitem_dropna_DataFrame[OF st] .
  have len: "length (map churn_label status) = length (index out)"
    by (simp add: status ix)
  have row: "index out ! j < length (t_rows t)
      \<and> (map churn_label status ! j = Num 1 \<longleftrightarrow> (t_rows t ! (index out ! j)) ''Customer_Status'' = Txt ''Churned'')
      \<and> (map churn_label status ! j = Num 0 \<longleftrightarrow> (t_rows t ! (index out ! j)) ''Customer_Status'' \<noteq> Txt ''Churned'')"
    if j: "j < length (index out)" for j
  proof -
    have "index out ! j \<in> set ?keep" using j ix by (metis nth_mem)
    then have "index out ! j < length (t_rows t)" by simp
    moreover have "map churn_label status ! j = churn_label ((t_rows t ! (index out ! j)) ''Customer_Status'')"
      using j by (simp add: status ix)
    ultimately show ?thesis by (simp add: churn_label_def)
  qed
  from ch len row show ?thesis by blast
qed

theorem churn_is_one_iff_churned_witness:
  "preprocess (DataFrame ex_table) = Inr ex_out
   \<and> getitem ex_out ''Churn'' = Inr [Num 0, Num 1, Num 1, Num 0]
   \<and> map (\<lambda>i. (t_rows ex_table ! i) ''Customer_Status'') (index ex_out)
       = [Txt ''Stayed'', Txt ''Churned'', Txt ''Churned'', Txt ''Joined'']"
proof -
  from churn_is_one_iff_churned[OF ex_preprocess] obtain ys where
    "getitem ex_out ''Churn'' = Inr ys" by blast
  moreover have "getitem ex_out ''Churn'' = Inr [Num 0, Num 1, Num 1, Num 0]"
    by (simp add: getitem_def ex_out_def)
  moreover have "map (\<lambda>i. (t_rows ex_table ! i) ''Customer_Status'') (index ex_out)
       = [Txt ''Stayed'', Txt ''Churned'', Txt ''Churned'', Txt ''Joined'']"
    by (simp add: ex_out_def ex_table_def ex_record_def)
  ultimately show ?thesis using ex_preprocess by simp
qed

subsection \<open>The connection\<close>

text \<open>
  C2, as stated, fails: when the server accepts the connection and \<^verbatim>\<open>pd.read_sql\<close>
  raises, the cell ends at that statement, \<^verbatim>\<open>conn.close()\<close> is never executed and
  the connection is still open.
\<close>

theorem connection_left_open_counterexample:
  "load_data \<lparr>accepts = True, answer = Inl QueryError\<rparr> \<lparr>connections = []\<rparr>
     = (Inl QueryError, \<lparr>connections = [Open]\<rparr>)"
  by (simp add: load_data_def connect_def read_sql_def)

text \<open>
  C2, amended. The connection is released on the exit path on which \<^verbatim>\<open>pd.read_sql\<close>
  returns: after a successful load the connection the loader opened is closed. When
  \<^verbatim>\<open>pyodbc.connect\<close> raises, no connection was opened and the world is unchanged. When
  \<^verbatim>\<open>pd.read_sql\<close> raises, its error is the loader's error and the connection the
  loader opened is left open. The loader returns a frame exactly when the server accepts
  the connection and answers the query.
\<close>

theorem connection_released_when_query_returns:
  assumes "load_data srv w0 = (res, w)"
  shows "(\<forall>df. res = Inr df \<longrightarrow> connections w = connections w0 @ [Closed])
       \<and> (\<forall>e. res = Inl e \<and> \<not> accepts srv \<longrightarrow> e = ConnectError \<and> w = w0)
       \<and> (\<forall>e. res = Inl e \<and> accepts srv \<longrightarrow> answer srv = Inl e \<and> connections w = connections w0 @ [Open])
       \<and> ((\<exists>df. res = Inr df) \<longleftrightarrow> accepts srv \<and> (\<exists>t. answer srv = Inr t))"
  using assms
  by (auto simp: load_data_def connect_def read_sql_def close_def split: if_splits sum.splits)

theorem connection_released_when_query_returns_witness:
  "load_data \<lparr>accepts = True, answer = Inr ex_table\<rparr> \<lparr>connections = []\<rparr>
      = (Inr (DataFrame ex_table), \<lparr>connections = [Closed]\<rparr>)
   \<and> connections \<lparr>connections = [Closed]\<rparr> = connections \<lparr>connections = []\<rparr> @ [Closed]"
proof -
  have run: "load_data \<lparr>accepts = True, answer = Inr ex_table\<rparr> \<lparr>connections = []\<rparr>
      = (Inr (DataFrame ex_table), \<lparr>connections = [Closed]\<rparr>)"
    by (simp add: load_data_def connect_def read_sql_def close_def)
  from connection_released_when_query_returns[OF run] show ?thesis
    using run by simp
qed

subsection \<open>Predictors, labels and the split\<close>

lemma ex_separate: "separate ex_out = Inr (ex_X, ex_y)"
  by code_simp

lemma ex_split:
  "train_test_split ex_rng ex_X ex_y 42 = Inr (ex_X_train, ex_X_test, ex_y_train, ex_y_test)"
  by code_simp

lemma ex_rng_permutation: "is_permutation (ex_rng seed n) n"
  by (simp add: is_permutation_def ex_rng_def)

lemma separate_parts:
  assumes "separate df = Inr (X, y)"
  shows "index X = index df" "s_index y = index df" "getitem df ''Churn'' = Inr (s_cells y)"
  using assms
  by (auto simp: separate_def drop_columns_def split: sum.splits if_splits)

lemma separate_names:
  assumes "separate df = Inr (X, y)"
  shows "names X = filter (\<lambda>k. k \<noteq> ''Churn'') (names df)"
proof -
  from assms have "columns X = filter (\<lambda>(k, vs). k \<notin> set [''Churn'']) (columns df)"
    by (auto simp: separate_def drop_columns_def split: sum.splits if_splits)
  then show ?thesis
    by (simp add: names_def filter_map comp_def case_prod_unfold)
qed

lemma preprocess_separate:
  assumes "preprocess (DataFrame t) = Inr df"
  shows "\<exists>X y. separate df = Inr (X, y) \<and> length (s_cells y) = nrows df"
proof -
  let ?keep = "filter (complete_record t) [0..<length (t_rows t)]"
  from preprocess_Churn[OF assms] obtain status where
    st: "getitem (dropna (DataFrame t)) ''Customer_Status'' = Inr status"
    and ch: "getitem df ''Churn'' = Inr (map churn_label status)"
    by blast
  have "status = map (\<lambda>p. (t_rows t ! p) ''Customer_Status'') ?keep"
    using getitem_dropna_DataFrame[OF st] .
  moreover have "index df = ?keep"
    using preprocess_index[OF assms] by (simp add: index_dropna_DataFrame)
  ultimately have len: "length (map churn_label status) = nrows df"
    by (simp add: nrows_def)
  from ch have "map_of (columns df) ''Churn'' \<noteq> None"
    by (auto simp: getitem_def split: option.splits)
  then have "''Churn'' \<in> set (names df)"
    by (metis map_of_eq_None_iff names_def set_map)
  then obtain X where "drop_columns df [''Churn''] = Inr X"
    by (simp add: drop_columns_def)
  with ch have "separate df = Inr (X, \<lparr>s_index = index df, s_cells = map churn_label status\<rparr>)"
    by (simp add: separate_def)
  with len show ?thesis by force
qed

lemma preprocess_distinct_index:
  assumes "preprocess (DataFrame t) = Inr df"
  shows "distinct (index df)"
  using preprocess_index[OF assms] by (simp add: index_dropna_DataFrame)

lemma validate_sizes:
  assumes "validate_shuffle_split n = Inr (n_train, n_test)"
  shows "n_train + n_test = n" "0 < n_train" "0 < n_test" "n_test = (3 * n + 9) div 10"
  using assms by (auto simp: validate_shuffle_split_def Let_def split: if_splits)

lemma is_permutation_length: "is_permutation p n \<Longrightarrow> length p = n"
  by (metis is_permutation_def distinct_card card_atLeastLessThan set_upt diff_zero)

lemma split_parts:
  assumes "train_test_split rng X y seed = Inr (X_train, X_test, y_train, y_test)"
  obtains n_train n_test where
    "validate_shuffle_split (nrows X) = Inr (n_train, n_test)"
    "length (s_cells y) = nrows X"
    "X_test = iloc X (take n_test (rng seed (nrows X)))"
    "X_train = iloc X (take n_train (drop n_test (rng seed (nrows X))))"
    "y_test = iloc_series y (take n_test (rng seed (nrows X)))"
    "y_train = iloc_series y (take n_train (drop n_test (rng seed (nrows X))))"
  using assms
  by (auto simp: train_test_split_def Let_def split: if_splits sum.splits prod.splits)

lemma nth_image_permutation:
  assumes "distinct xs" "distinct p" "set p = set [0..<length xs]"
  shows "distinct (map (\<lambda>i. xs ! i) p)" "set (map (\<lambda>i. xs ! i) p) = set xs"
proof -
  have "inj_on (\<lambda>i. xs ! i) {0..<length xs}"
    using assms(1) by (auto simp: inj_on_def nth_eq_iff_index_eq)
  then show "distinct (map (\<lambda>i. xs ! i) p)"
    using assms(2,3) by (simp add: distinct_map)
  have "(\<lambda>i. xs ! i) ` {0..<length xs} = set xs"
    by (auto simp: in_set_conv_nth)
  then show "set (map (\<lambda>i. xs ! i) p) = set xs"
    using assms(3) by simp
qed

lemma split_covers:
  assumes v: "validate_shuffle_split n = Inr (n_train, n_test)" and p: "is_permutation p n"
  shows "take n_test p @ take n_train (drop n_test p) = p"
    and "length (take n_test p) = n_test" and "length (take n_train (drop n_test p)) = n_train"
proof -
  have len: "length p = n" using p by (rule is_permutation_length)
  have sum: "n_train + n_test = n" using validate_sizes(1)[OF v] .
  have "take n_test p @ take n_train (drop n_test p) = take (n_test + n_train) p"
    by (simp add: take_add)
  also have "\<dots> = p" using len sum by simp
  finally show "take n_test p @ take n_train (drop n_test p) = p" .
  show "length (take n_test p) = n_test" using len sum by simp
  show "length (take n_train (drop n_test p)) = n_train" using len sum by simp
qed

text \<open>
  C4. For the filtered dataset that preprocessing produces from a loaded table, and a
  generator that returns a permutation of the row positions, the training and test
  partitions have no row label in common, together they hold exactly the row labels of
  the filtered dataset, no label is repeated inside a partition, and their sizes sum to
  the number of filtered rows.
\<close>

theorem partitions_disjoint_and_cover:
  assumes pre: "preprocess (DataFrame t) = Inr df"
    and sep: "separate df = Inr (X, y)"
    and spl: "train_test_split rng X y 42 = Inr (X_train, X_test, y_train, y_test)"
    and perm: "is_permutation (rng 42 (nrows X)) (nrows X)"
  shows "set (index X_train) \<inter> set (index X_test) = {}
       \<and> set (index X_train) \<union> set (index X_test) = set (index df)
       \<and> distinct (index X_train) \<and> distinct (index X_test)
       \<and> nrows X_train + nrows X_test = nrows df"
proof -
  let ?p = "rng 42 (nrows X)"
  from spl obtain n_train n_test where
    v: "validate_shuffle_split (nrows X) = Inr (n_train, n_test)"
    and te: "X_test = iloc X (take n_test ?p)"
    and tr: "X_train = iloc X (take n_train (drop n_test ?p))"
    by (rule split_parts)
  let ?te = "take n_test ?p" and ?tr = "take n_train (drop n_test ?p)"
  have ix: "index X = index df" using separate_parts(1)[OF sep] .
  have dist: "distinct (index X)" using preprocess_distinct_index[OF pre] ix by simp
  have cover: "?te @ ?tr = ?p" using split_covers(1)[OF v perm] .
  have pd: "distinct ?p" and ps: "set ?p = set [0..<length (index X)]"
    using perm by (simp_all add: is_permutation_def nrows_def)
  have all: "index X_test @ index X_train = map (\<lambda>i. index X ! i) ?p"
    unfolding te tr iloc_def using cover by (simp flip: map_append)
  have d: "distinct (index X_test @ index X_train)"
    unfolding all using nth_image_permutation(1)[OF dist pd ps] .
  have s: "set (index X_test @ index X_train) = set (index X)"
    unfolding all using nth_image_permutation(2)[OF dist pd ps] .
  have "length (index X_test @ index X_train) = length ?p"
    unfolding all by simp
  then have n: "nrows X_train + nrows X_test = nrows df"
    using is_permutation_length[OF perm] ix by (simp add: nrows_def)
  from d s n ix show ?thesis by auto
qed

theorem partitions_disjoint_and_cover_witness:
  "preprocess (DataFrame ex_table) = Inr ex_out
   \<and> separate ex_out = Inr (ex_X, ex_y)
   \<and> train_test_split ex_rng ex_X ex_y 42 = Inr (ex_X_train, ex_X_test, ex_y_train, ex_y_test)
   \<and> is_permutation (ex_rng 42 (nrows ex_X)) (nrows ex_X)
   \<and> set (index ex_X_train) \<inter> set (index ex_X_test) = {}
   \<and> set (index ex_X_train) \<union> set (index ex_X_test) = set (index ex_out)
   \<and> nrows ex_X_train + nrows ex_X_test = nrows ex_out"
  using partitions_disjoint_and_cover[OF ex_preprocess ex_separate ex_split ex_rng_permutation]
    ex_preprocess ex_separate ex_split ex_rng_permutation
  by simp

text \<open>
  C8. The preprocessed frame separates into the predictors \<open>X\<close> (every column but
  \<^verbatim>\<open>Churn\<close>) and the labels \<open>y\<close> (the column \<^verbatim>\<open>Churn\<close>); \<open>X\<close> and \<open>y\<close> have the same
  number of rows and the same row labels, and so have \<open>X_train\<close> with \<open>y_train\<close> and
  \<open>X_test\<close> with \<open>y_test\<close> for every split.
\<close>

theorem predictors_and_labels_same_rows:
  assumes pre: "preprocess (DataFrame t) = Inr df"
  shows "\<exists>X y. separate df = Inr (X, y)
           \<and> names X = filter (\<lambda>k. k \<noteq> ''Churn'') (names df)
           \<and> getitem df ''Churn'' = Inr (s_cells y)
           \<and> nrows X = length (s_cells y) \<and> s_index y = index X
           \<and> (\<forall>rng seed X_train X_test y_train y_test.
                  train_test_split rng X y seed = Inr (X_train, X_test, y_train, y_test) \<longrightarrow>
                    nrows X_train = length (s_cells y_train) \<and> s_index y_train = index X_train
                  \<and> nrows X_test = length (s_cells y_test) \<and> s_index y_test = index X_test)"
proof -
  from preprocess_separate[OF pre] obtain X y where
    sep: "separate df = Inr (X, y)" and len: "length (s_cells y) = nrows df"
    by blast
  have ix: "index X = index df" "s_index y = index df"
    using separate_parts[OF sep] by simp_all
  have parts: "nrows X_train = length (s_cells y_train) \<and> s_index y_train = index X_train
             \<and> nrows X_test = length (s_cells y_test) \<and> s_index y_test = index X_test"
    if "train_test_split rng X y seed = Inr (X_train, X_test, y_train, y_test)"
    for rng seed X_train X_test y_train y_test
    using that ix by (elim split_parts) (simp add: iloc_def iloc_series_def nrows_def)
  from sep len ix parts separate_names[OF sep] separate_parts(3)[OF sep] show ?thesis
    by (intro exI[of _ X] exI[of _ y]) (simp add: nrows_def)
qed

theorem predictors_and_labels_same_rows_witness:
  "preprocess (DataFrame ex_table) = Inr ex_out
   \<and> separate ex_out = Inr (ex_X, ex_y)
   \<and> nrows ex_X = length (s_cells ex_y)
   \<and> train_test_split ex_rng ex_X ex_y 42 = Inr (ex_X_train, ex_X_test, ex_y_train, ex_y_test)
   \<and> nrows ex_X_train = length (s_cells ex_y_train)
   \<and> nrows ex_X_test = length (s_cells ex_y_test)"
proof -
  from predictors_and_labels_same_rows[OF ex_preprocess] obtain X y where
    "separate ex_out = Inr (X, y)" and "nrows X = length (s_cells y)"
    and "\<forall>rng seed X_train X_test y_train y_test.
                  train_test_split rng X y seed = Inr (X_train, X_test, y_train, y_test) \<longrightarrow>
                    nrows X_train = length (s_cells y_train) \<and> s_index y_train = index X_train
                  \<and> nrows X_test = length (s_cells y_test) \<and> s_index y_test = index X_test"
    by blast
  with ex_separate ex_split ex_preprocess show ?thesis by auto
qed

lemma count_matches:
  "length xs = length ys \<Longrightarrow>
     length (filter (\<lambda>(a, b). a = b) (zip xs ys)) = card {j. j < length xs \<and> ys ! j = xs ! j}"
proof -
  assume l: "length xs = length ys"
  have "{i. i < length (zip xs ys) \<and> (case zip xs ys ! i of (a, b) \<Rightarrow> a = b)} = {j. j < length xs \<and> ys ! j = xs ! j}"
    using l by auto
  then show ?thesis by (simp add: length_filter_conv_card)
qed

text \<open>
  C3. When the split and the fit succeed and the classifier predicts one label per
  test row, the training cell returns an accuracy that is a number, lies in the closed
  interval from 0 to 1, and is the number of test rows whose predicted label equals the
  true label divided by the number of test rows; the test partition is not empty. The
  accuracy is the exact quotient (the rounding of the floating-point division is not
  part of the statement).
\<close>

theorem accuracy_is_fraction_of_matches:
  assumes sep: "separate df = Inr (X, y)"
    and spl: "train_test_split rng X y 42 = Inr (X_train, X_test, y_train, y_test)"
    and fit: "fit clf 1000 X_train y_train = Inr m"
    and perm: "is_permutation (rng 42 (nrows X)) (nrows X)"
    and pred: "length (predict clf m X_test) = nrows X_test"
  shows "\<exists>q. train_and_score rng clf df = Inr (m, Score q)
           \<and> 0 \<le> q \<and> q \<le> 1 \<and> 0 < nrows X_test
           \<and> length (s_cells y_test) = nrows X_test
           \<and> q = of_nat (card {j. j < nrows X_test \<and> predict clf m X_test ! j = s_cells y_test ! j})
                   / of_nat (nrows X_test)"
proof -
  let ?p = "rng 42 (nrows X)"
  let ?pred = "predict clf m X_test"
  from spl obtain n_train n_test where
    v: "validate_shuffle_split (nrows X) = Inr (n_train, n_test)"
    and te: "X_test = iloc X (take n_test ?p)"
    and yte: "y_test = iloc_series y (take n_test ?p)"
    by (rule split_parts)
  have n_test: "length (take n_test ?p) = n_test" using split_covers(2)[OF v perm] .
  have pos: "0 < n_test" using validate_sizes(3)[OF v] .
  have rows: "nrows X_test = n_test" unfolding te using n_test by (simp add: iloc_def nrows_def)
  have ylen: "length (s_cells y_test) = n_test" unfolding yte using n_test by (simp add: iloc_series_def)
  let ?k = "card {j. j < nrows X_test \<and> ?pred ! j = s_cells y_test ! j}"
  let ?q = "(of_nat ?k :: rat) / of_nat (nrows X_test)"
  have cnt: "length (filter (\<lambda>(a, b). a = b) (zip (s_cells y_test) ?pred)) = ?k"
    using count_matches[of "s_cells y_test" ?pred] pred rows ylen by simp
  have ne: "s_cells y_test \<noteq> []" using ylen pos by auto
  have acc: "accuracy_score (s_cells y_test) ?pred = Inr (Score ?q)"
    using pred rows ylen ne cnt by (simp add: accuracy_score_def)
  have run: "train_and_score rng clf df = Inr (m, Score ?q)"
    by (simp add: train_and_score_def sep spl fit acc)
  have "?k \<le> nrows X_test"
    using cnt length_filter_le[of "\<lambda>(a, b). a = b" "zip (s_cells y_test) ?pred"] pred rows ylen by simp
  then have le: "?q \<le> 1" using pos rows by (simp add: divide_le_eq_1)
  have ge: "0 \<le> ?q" by simp
  from run ge le pos rows ylen show ?thesis by auto
qed

lemma ex_fit: "fit ex_clf 1000 ex_X_train ex_y_train = Inr 7"
  by (simp add: ex_clf_def)

lemma ex_predict: "length (predict ex_clf 7 ex_X_test) = nrows ex_X_test"
  by (simp add: ex_clf_def)

lemma ex_train_and_score: "train_and_score ex_rng ex_clf ex_out = Inr (7, Score (1 / 2))"
  by code_simp

theorem accuracy_is_fraction_of_matches_witness:
  "separate ex_out = Inr (ex_X, ex_y)
   \<and> train_test_split ex_rng ex_X ex_y 42 = Inr (ex_X_train, ex_X_test, ex_y_train, ex_y_test)
   \<and> fit ex_clf 1000 ex_X_train ex_y_train = Inr 7
   \<and> is_permutation (ex_rng 42 (nrows ex_X)) (nrows ex_X)
   \<and> length (predict ex_clf 7 ex_X_test) = nrows ex_X_test
   \<and> train_and_score ex_rng ex_clf ex_out = Inr (7, Score (1 / 2))"
proof -
  from accuracy_is_fraction_of_matches[OF ex_separate ex_split ex_fit ex_rng_permutation ex_predict]
  obtain q where "train_and_score ex_rng ex_clf ex_out = Inr (7, Score q)" by blast
  moreover note ex_train_and_score
  ultimately show ?thesis
    using ex_separate ex_split ex_fit ex_rng_permutation ex_predict by simp
qed

subsection \<open>Split ratio\<close>

text \<open>
  With \<^verbatim>\<open>test_size=0.3\<close> the test partition has 30% of the rows, rounded up to a
  whole row, and the training partition has the remaining rows.
\<close>

lemma split_sizes:
  assumes spl: "train_test_split rng X y seed = Inr (X_train, X_test, y_train, y_test)"
    and perm: "is_permutation (rng seed (nrows X)) (nrows X)"
  shows "nrows X_test = (3 * nrows X + 9) div 10"
    and "3 * nrows X \<le> 10 * nrows X_test" and "10 * nrows X_test < 3 * nrows X + 10"
    and "nrows X_train = nrows X - nrows X_test" and "0 < nrows X_train"
proof -
  let ?p = "rng seed (nrows X)"
  from spl obtain n_train n_test where
    v: "validate_shuffle_split (nrows X) = Inr (n_train, n_test)"
    and te: "X_test = iloc X (take n_test ?p)"
    and tr: "X_train = iloc X (take n_train (drop n_test ?p))"
    by (rule split_parts)
  have n_te: "nrows X_test = n_test"
    unfolding te using split_covers(2)[OF v perm] by (simp add: iloc_def nrows_def)
  have n_tr: "nrows X_train = n_train"
    unfolding tr using split_covers(3)[OF v perm] by (simp add: iloc_def nrows_def)
  have sum: "n_train + n_test = nrows X" and pos: "0 < n_train"
    and ceil: "n_test = (3 * nrows X + 9) div 10"
    using validate_sizes[OF v] by simp_all
  show "nrows X_test = (3 * nrows X + 9) div 10" using n_te ceil by simp
  show "3 * nrows X \<le> 10 * nrows X_test" using n_te ceil by simp
  show "10 * nrows X_test < 3 * nrows X + 10" using n_te ceil by simp
  show "nrows X_train = nrows X - nrows X_test" using n_te n_tr sum by simp
  show "0 < nrows X_train" using n_tr pos by simp
qed

subsection \<open>One-hot encoding\<close>

lemma distinct_levels: "distinct (levels vs)"
  by (auto simp: levels_def distinct_map inj_on_def)

lemma no_prefix_clash:
  "list_all (\<lambda>c. list_all (\<lambda>c'. c = c' \<or> \<not> prefix (c @ ''_'') (c' @ ''_'')) categorical_columns) categorical_columns"
  by code_simp

lemma dummy_name_column:
  assumes "c \<in> set categorical_columns" "c' \<in> set categorical_columns"
    and "dummy_name c l = dummy_name c' l'"
  shows "c = c'"
proof -
  from assms(3) have eq: "(c @ ''_'') @ str l = (c' @ ''_'') @ str l'"
    by (simp add: dummy_name_def)
  have "prefix (c @ ''_'') ((c @ ''_'') @ str l)"
    by (rule prefixI) (rule refl)
  moreover have "prefix (c' @ ''_'') ((c @ ''_'') @ str l)"
    unfolding eq by (rule prefixI) (rule refl)
  ultimately have "prefix (c @ ''_'') (c' @ ''_'') \<or> prefix (c' @ ''_'') (c @ ''_'')"
    by (rule prefix_same_cases)
  with no_prefix_clash assms(1,2) show ?thesis
    by (auto simp: list_all_iff)
qed

lemma encode_all_sound:
  "encode_all df cs d = Inr blocks \<Longrightarrow> (nm, cells) \<in> set blocks \<Longrightarrow>
     \<exists>c vs l. c \<in> set cs \<and> getitem df c = Inr vs
        \<and> l \<in> set (if d then tl (levels vs) else levels vs)
        \<and> nm = dummy_name c l \<and> cells = indicator l vs"
proof (induction cs arbitrary: blocks)
  case Nil
  then show ?case by simp
next
  case (Cons c cs)
  from Cons.prems(1) obtain vs rest where
    g: "getitem df c = Inr vs" and r: "encode_all df cs d = Inr rest"
    and b: "blocks = get_dummies_1d c vs d @ rest"
    by (auto split: sum.splits)
  from Cons.prems(2) b consider "(nm, cells) \<in> set (get_dummies_1d c vs d)" | "(nm, cells) \<in> set rest"
    by auto
  then show ?case
  proof cases
    case 1
    then obtain l where "l \<in> set (if d then tl (levels vs) else levels vs)"
      "nm = dummy_name c l" "cells = indicator l vs"
      by (auto simp: get_dummies_1d_def)
    with g show ?thesis by (intro exI[of _ c] exI[of _ vs] exI[of _ l]) simp
  next
    case 2
    from Cons.IH[OF r 2] obtain c' vs' l where
      "c' \<in> set cs" "getitem df c' = Inr vs'"
      "l \<in> set (if d then tl (levels vs') else levels vs')"
      "nm = dummy_name c' l" "cells = indicator l vs'"
      by blast
    then show ?thesis
      by (intro exI[of _ c'] exI[of _ vs'] exI[of _ l]) simp
  qed
qed


lemma get_dummies_names:
  assumes "get_dummies df cs d = Inr out"
  obtains blocks where "encode_all df cs d = Inr blocks"
    "columns out = filter (\<lambda>(k, vs). k \<notin> set cs) (columns df) @ blocks"
  using assms by (auto simp: get_dummies_def split: sum.splits)

lemma num_of_Some: "num_of x = Some n \<longleftrightarrow> x = Num n"
  by (cases x) auto

lemma txt_of_Some: "txt_of x = Some s \<longleftrightarrow> x = Txt s"
  by (cases x) auto

lemma set_levels: "set (levels vs) = set vs - {NA}"
proof -
  have "l \<in> set (levels vs) \<longleftrightarrow> l \<in> set vs \<and> l \<noteq> NA" for l
    by (cases l) (auto simp: levels_def List.map_filter_def num_of_Some txt_of_Some image_iff)
  then show ?thesis by auto
qed

lemma digit_value: "d < 10 \<Longrightarrow> of_char (digit d) = 48 + d"
  by (simp add: digit_def)

lemma digits10_value:
  "foldl (\<lambda>a ch. 10 * a + (of_char ch - 48)) 0 (digits10 n) = n"
proof (induction n rule: digits10.induct)
  case (1 n)
  show ?case
  proof (cases "n < 10")
    case True
    then show ?thesis by (subst digits10.simps) (simp add: digit_value)
  next
    case False
    with 1 have "foldl (\<lambda>a ch. 10 * a + (of_char ch - 48)) 0 (digits10 (n div 10)) = n div 10"
      by simp
    with False show ?thesis
      by (subst digits10.simps) (simp add: digit_value)
  qed
qed

lemma digits10_inj: "digits10 a = digits10 b \<Longrightarrow> a = b"
  by (metis digits10_value)

lemma digits10_no_minus: "ch \<in> set (digits10 n) \<Longrightarrow> ch \<noteq> CHR ''-''"
proof (induction n rule: digits10.induct)
  case (1 n)
  have d: "digit k \<noteq> CHR ''-''" if "k < 10" for k
  proof
    assume "digit k = CHR ''-''"
    then have "(of_char (digit k) :: nat) = of_char CHR ''-''" by simp
    with that show False by (simp add: digit_value)
  qed
  show ?case
  proof (cases "n < 10")
    case True
    with "1.prems" show ?thesis by (subst (asm) digits10.simps) (simp add: d)
  next
    case False
    with "1.prems" have "ch \<in> set (digits10 (n div 10)) \<or> ch = digit (n mod 10)"
      by (subst (asm) digits10.simps) auto
    with 1 False show ?thesis using d[of "n mod 10"] by auto
  qed
qed

lemma digits10_not_Nil: "digits10 n \<noteq> []"
  by (subst digits10.simps) simp

lemma str_Num_inj: "str (Num a) = str (Num b) \<Longrightarrow> a = b"
proof -
  assume eq: "str (Num a) = str (Num b)"
  have hd: "hd (digits10 k) \<noteq> CHR ''-''" for k
    using digits10_no_minus[of "hd (digits10 k)" k] digits10_not_Nil[of k] by simp
  have ne: "CHR ''-'' # digits10 j \<noteq> digits10 k" for j k
    using hd[of k] by (metis list.sel(1))
  show "a = b"
  proof (cases "a < 0"; cases "b < 0")
    assume "a < 0" "b < 0"
    with eq have "digits10 (nat (- a)) = digits10 (nat (- b))" by (simp add: str_def)
    then have "nat (- a) = nat (- b)" by (rule digits10_inj)
    with \<open>a < 0\<close> \<open>b < 0\<close> show ?thesis by simp
  next
    assume "a < 0" "\<not> b < 0"
    with eq ne show ?thesis by (simp add: str_def)
  next
    assume "\<not> a < 0" "b < 0"
    with eq ne[of "nat (- b)" "nat a"] show ?thesis by (simp add: str_def)
  next
    assume "\<not> a < 0" "\<not> b < 0"
    with eq have "digits10 (nat a) = digits10 (nat b)" by (simp add: str_def)
    then have "nat a = nat b" by (rule digits10_inj)
    with \<open>\<not> a < 0\<close> \<open>\<not> b < 0\<close> show ?thesis by simp
  qed
qed

lemma str_inj_one_kind:
  assumes "one_kind vs" "l \<in> set (levels vs)" "l' \<in> set (levels vs)" "str l = str l'"
  shows "l = l'"
proof -
  from assms(2,3) have m: "l \<in> set vs" "l' \<in> set vs" "l \<noteq> NA" "l' \<noteq> NA"
    by (simp_all add: set_levels)
  from assms(1) show ?thesis
    unfolding one_kind_def
  proof
    assume "list_all (\<lambda>v. num_of v = None) vs"
    then have t: "\<exists>s. v = Txt s" if "v \<in> set vs" "v \<noteq> NA" for v
      using that by (cases v) (auto simp: list_all_iff)
    from t[OF m(1,3)] t[OF m(2,4)] obtain s s' where "l = Txt s" "l' = Txt s'"
      by blast
    with assms(4) show ?thesis by (simp add: str_def)
  next
    assume "list_all (\<lambda>v. txt_of v = None) vs"
    then have t: "\<exists>n. v = Num n" if "v \<in> set vs" "v \<noteq> NA" for v
      using that by (cases v) (auto simp: list_all_iff)
    from t[OF m(1,3)] t[OF m(2,4)] obtain n n' where "l = Num n" "l' = Num n'"
      by blast
    with assms(4) show ?thesis using str_Num_inj by blast
  qed
qed

lemma indicator_inj:
  assumes "l0 \<in> set (levels vs)" "indicator l vs = indicator l0 vs"
  shows "l = l0"
proof -
  from assms(1) have "l0 \<in> set vs" by (simp add: set_levels)
  then obtain i where i: "i < length vs" "vs ! i = l0" by (auto simp: in_set_conv_nth)
  from assms(2) have "indicator l vs ! i = indicator l0 vs ! i" by simp
  with i show ?thesis by (simp add: indicator_def split: if_splits)
qed

text \<open>
  C5. For every column \<open>c\<close> of the fixed list of 20 categorical columns that has at
  least one category, the output of the one-hot expansion with \<^verbatim>\<open>drop_first=True\<close>
  does not contain the indicator column of the first category of \<open>c\<close>; when the cells
  of \<open>c\<close> are of one kind, no output column even carries that indicator's name. The
  frame did not already have a column of that name before the expansion.
\<close>

theorem first_category_not_encoded:
  assumes enc: "get_dummies df categorical_columns True = Inr out"
    and c: "c \<in> set categorical_columns"
    and col: "getitem df c = Inr vs"
    and ne: "levels vs \<noteq> []"
    and fresh: "dummy_name c (hd (levels vs)) \<notin> set (names df)"
  shows "(dummy_name c (hd (levels vs)), indicator (hd (levels vs)) vs) \<notin> set (columns out)
       \<and> (one_kind vs \<longrightarrow> dummy_name c (hd (levels vs)) \<notin> set (names out))"
proof -
  let ?l0 = "hd (levels vs)"
  from enc obtain blocks where
    b: "encode_all df categorical_columns True = Inr blocks"
    and cols: "columns out = filter (\<lambda>(k, vs). k \<notin> set categorical_columns) (columns df) @ blocks"
    by (rule get_dummies_names)
  have l0_in: "?l0 \<in> set (levels vs)" using ne by simp
  have dist: "?l0 \<notin> set (tl (levels vs))"
    using distinct_levels[of vs] ne by (cases "levels vs") simp_all
  have block: "\<exists>l. l \<in> set (tl (levels vs)) \<and> nm = dummy_name c l \<and> cells = indicator l vs"
    if "(nm, cells) \<in> set blocks" "nm = dummy_name c ?l0" for nm cells
  proof -
    from encode_all_sound[OF b that(1)] obtain c' vs' l where
      c': "c' \<in> set categorical_columns" and col': "getitem df c' = Inr vs'"
      and l: "l \<in> set (tl (levels vs'))" and nm: "nm = dummy_name c' l" and ce: "cells = indicator l vs'"
      by auto
    have "c = c'" using dummy_name_column[OF c c'] nm that(2) by simp
    with col col' have "vs' = vs" by simp
    with l nm ce \<open>c = c'\<close> show ?thesis by blast
  qed
  have kept: "nm \<in> set (names df)"
    if "(nm, cells) \<in> set (columns out)" "(nm, cells) \<notin> set blocks" for nm cells
    using that cols by (force simp: names_def)
  have pair: "(dummy_name c ?l0, indicator ?l0 vs) \<notin> set (columns out)"
  proof
    assume a: "(dummy_name c ?l0, indicator ?l0 vs) \<in> set (columns out)"
    with kept fresh have "(dummy_name c ?l0, indicator ?l0 vs) \<in> set blocks" by blast
    from block[OF this refl] obtain l where
      l: "l \<in> set (tl (levels vs))" and "indicator ?l0 vs = indicator l vs"
      by blast
    then have "l = ?l0" using indicator_inj[OF l0_in, of l] by simp
    with l dist show False by simp
  qed
  have name: "dummy_name c ?l0 \<notin> set (names out)" if kind: "one_kind vs"
  proof
    assume "dummy_name c ?l0 \<in> set (names out)"
    then obtain cells where a: "(dummy_name c ?l0, cells) \<in> set (columns out)"
      by (auto simp: names_def)
    with kept fresh have "(dummy_name c ?l0, cells) \<in> set blocks" by blast
    from block[OF this refl] obtain l where
      l: "l \<in> set (tl (levels vs))" and s: "dummy_name c ?l0 = dummy_name c l"
      by blast
    from l have l_in: "l \<in> set (levels vs)" by (metis list.set_sel(2) ne)
    from s have "str ?l0 = str l" by (simp add: dummy_name_def)
    then have "?l0 = l" using str_inj_one_kind[OF kind l0_in l_in] by simp
    with l dist show False by simp
  qed
  from pair name show ?thesis by blast
qed

lemma ex_get_dummies:
  "get_dummies (dropna (DataFrame ex_table)) categorical_columns True = Inr ex_encoded"
  by code_simp

lemma ex_gender:
  "getitem (dropna (DataFrame ex_table)) ''Gender'' = Inr [Txt ''Female'', Txt ''Male'', Txt ''Female'', Txt ''Male'']"
  by code_simp

lemma ex_gender_levels:
  "levels [Txt ''Female'', Txt ''Male'', Txt ''Female'', Txt ''Male''] = [Txt ''Female'', Txt ''Male'']"
  by code_simp

theorem first_category_not_encoded_witness:
  "get_dummies (dropna (DataFrame ex_table)) categorical_columns True = Inr ex_encoded
   \<and> ''Gender'' \<in> set categorical_columns
   \<and> getitem (dropna (DataFrame ex_table)) ''Gender'' = Inr [Txt ''Female'', Txt ''Male'', Txt ''Female'', Txt ''Male'']
   \<and> one_kind [Txt ''Female'', Txt ''Male'', Txt ''Female'', Txt ''Male'']
   \<and> levels [Txt ''Female'', Txt ''Male'', Txt ''Female'', Txt ''Male''] = [Txt ''Female'', Txt ''Male'']
   \<and> ''Gender_Female'' \<notin> set (names (dropna (DataFrame ex_table)))
   \<and> ''Gender_Female'' \<notin> set (names ex_encoded)
   \<and> ''Gender_Male'' \<in> set (names ex_encoded)"
proof -
  let ?vs = "[Txt ''Female'', Txt ''Male'', Txt ''Female'', Txt ''Male'']"
  have c: "''Gender'' \<in> set categorical_columns"
    by (simp add: categorical_columns_def)
  have kind: "one_kind ?vs"
    by (simp add: one_kind_def)
  have ne: "levels ?vs \<noteq> []"
    by (simp add: ex_gender_levels)
  have nm: "dummy_name ''Gender'' (hd (levels ?vs)) = ''Gender_Female''"
    by (simp add: ex_gender_levels dummy_name_def str_def)
  have fresh: "''Gender_Female'' \<notin> set (names (dropna (DataFrame ex_table)))"
    by code_simp
  have fresh': "dummy_name ''Gender'' (hd (levels ?vs)) \<notin> set (names (dropna (DataFrame ex_table)))"
    unfolding nm by (rule fresh)
  have male: "''Gender_Male'' \<in> set (names ex_encoded)"
    by (simp add: ex_encoded_def names_def)
  from first_category_not_encoded[OF ex_get_dummies c ex_gender ne fresh'] kind
  have "dummy_name ''Gender'' (hd (levels ?vs)) \<notin> set (names ex_encoded)"
    by blast
  then have "''Gender_Female'' \<notin> set (names ex_encoded)"
    unfolding nm .
  with ex_get_dummies c ex_gender kind ex_gender_levels fresh male show ?thesis
    by blast
qed









end
